theory Spec2Isabelle
  imports Complex_Main "HOL-Library.Sublist" "HOL-Library.Product_Lexorder"
begin

section \<open>Data model\<close>

text \<open>
  The pipeline of \<^verbatim>\<open>final.py\<close> works on Python dicts. A dict with a fixed set of keys is
  a record here. Font sizes and page coordinates are Python floats in the program; the
  model takes them as exact rationals, so the rounding of \<^verbatim>\<open>np.mean\<close> and of
  \<^verbatim>\<open>height * margin\<close> is not part of it. Page indices and style flags are Python ints.
  A Python \<^verbatim>\<open>str\<close> is a \<open>string\<close> whose characters stand for the code points
  below 256.
\<close>

type_synonym bbox = "rat \<times> rat \<times> rat \<times> rat"

definition bx0 :: "bbox \<Rightarrow> rat" where "bx0 b = fst b"
definition by0 :: "bbox \<Rightarrow> rat" where "by0 b = fst (snd b)"
definition bx1 :: "bbox \<Rightarrow> rat" where "bx1 b = fst (snd (snd b))"
definition by1 :: "bbox \<Rightarrow> rat" where "by1 b = snd (snd (snd b))"

text \<open>A block, as \<^verbatim>\<open>parse_pdf\<close> builds it.\<close>

record block =
  b_text :: string
  b_font :: string
  b_size :: rat
  b_flags :: int
  b_bbox :: bbox
  b_page :: int
  b_page_height :: rat
  b_page_width :: rat

section \<open>Bounding boxes\<close>

text \<open>
  \<^verbatim>\<open>merge_bboxes\<close>: \<^verbatim>\<open>min\<close> and \<^verbatim>\<open>max\<close> over a generator; on the empty list Python
  raises ValueError, which is \<open>None\<close> here.
\<close>

fun merge_bboxes :: "bbox list \<Rightarrow> bbox option" where
  "merge_bboxes [] = None"
| "merge_bboxes (b # bs) =
     Some (fold min (map bx0 bs) (bx0 b), fold min (map by0 bs) (by0 b),
           fold max (map bx1 bs) (bx1 b), fold max (map by1 bs) (by1 b))"

fun bbox_intersect :: "bbox \<Rightarrow> bbox \<Rightarrow> bool" where
  "bbox_intersect (x0_1, y0_1, x1_1, y1_1) (x0_2, y0_2, x1_2, y1_2) =
     (\<not> (x1_1 < x0_2 \<or> x1_2 < x0_1 \<or> y1_1 < y0_2 \<or> y1_2 < y0_1))"

fun bbox_in_any :: "bbox \<Rightarrow> bbox list \<Rightarrow> bool" where
  "bbox_in_any bb [] = False"
| "bbox_in_any bb (b # bbox_list) =
     (if bbox_intersect bb b then True else bbox_in_any bb bbox_list)"

text \<open>The table regions: a dict from page number to a list of boxes.\<close>

type_synonym tables = "int \<rightharpoonup> bbox list"

definition block_in_tables :: "int \<Rightarrow> bbox \<Rightarrow> tables \<Rightarrow> bool" where
  "block_in_tables page_num bb tables_bbox =
     (case tables_bbox page_num of
        Some bbox_list \<Rightarrow> bbox_in_any bb bbox_list
      | None \<Rightarrow> False)"

section \<open>Block merger\<close>

text \<open>
  \<^verbatim>\<open>merge_consecutive_blocks\<close>: the loop over \<^verbatim>\<open>blocks[1:]\<close> with its two variables,
  \<^verbatim>\<open>current\<close> and \<^verbatim>\<open>merged\<close>.
\<close>

definition same_style :: "block \<Rightarrow> block \<Rightarrow> bool" where
  "same_style blk current =
     (b_page blk = b_page current \<and> b_font blk = b_font current
      \<and> b_size blk = b_size current \<and> b_flags blk = b_flags current)"

fun merge_loop :: "block \<Rightarrow> block list \<Rightarrow> block list \<Rightarrow> block list option" where
  "merge_loop current merged [] = Some (merged @ [current])"
| "merge_loop current merged (blk # rest) =
     (if same_style blk current then
        (case merge_bboxes [b_bbox current, b_bbox blk] of
           None \<Rightarrow> None
         | Some bb \<Rightarrow>
             merge_loop (current\<lparr>b_text := b_text current @ '' '' @ b_text blk, b_bbox := bb\<rparr>)
               merged rest)
      else merge_loop blk (merged @ [current]) rest)"

definition merge_consecutive_blocks :: "block list \<Rightarrow> block list option" where
  "merge_consecutive_blocks blocks =
     (case blocks of [] \<Rightarrow> Some [] | b # rest \<Rightarrow> merge_loop b [] rest)"

text \<open>No two neighbours of a list share page, font, size and flags.\<close>

fun style_breaks :: "block list \<Rightarrow> bool" where
  "style_breaks (a # b # bs) = (\<not> same_style b a \<and> style_breaks (b # bs))"
| "style_breaks _ = True"

section \<open>Strings\<close>

text \<open>
  \<^verbatim>\<open>str.strip()\<close> removes the characters for which \<^verbatim>\<open>str.isspace\<close> holds; below 256
  these are the code points 9 to 13, 28 to 32, 133 and 160.
\<close>

definition is_space :: "char \<Rightarrow> bool" where
  "is_space c = ((of_char c :: nat) \<in> {9, 10, 11, 12, 13, 28, 29, 30, 31, 32, 133, 160})"

definition strip :: "string \<Rightarrow> string" where
  "strip s = rev (dropWhile is_space (rev (dropWhile is_space s)))"

definition endswith :: "string \<Rightarrow> string \<Rightarrow> bool" where
  "endswith t suf = (take (length suf) (rev t) = rev suf)"

text \<open>
  \<^verbatim>\<open>str.lower()\<close> below 256: A to Z and the capital letters 192 to 222 (215, the
  multiplication sign, apart) move up by 32.
\<close>

definition char_lower :: "char \<Rightarrow> char" where
  "char_lower c =
     (let n = (of_char c :: nat)
      in if (65 \<le> n \<and> n \<le> 90) \<or> (192 \<le> n \<and> n \<le> 222 \<and> n \<noteq> 215)
         then char_of (n + 32) else c)"

definition lower :: "string \<Rightarrow> string" where
  "lower s = map char_lower s"

text \<open>\<^verbatim>\<open>word in s\<close> on strings: \<open>word\<close> occurs in \<open>s\<close> as a contiguous substring.\<close>

fun contains :: "string \<Rightarrow> string \<Rightarrow> bool" where
  "contains [] word = (word = [])"
| "contains (c # cs) word = (take (length word) (c # cs) = word \<or> contains cs word)"

text \<open>The decimal digits of \<^verbatim>\<open>f"{n}"\<close> for a natural number.\<close>

fun str_nat :: "nat \<Rightarrow> string" where
  "str_nat n =
     (if n < 10 then [char_of (48 + n)]
      else str_nat (n div 10) @ [char_of (48 + n mod 10)])"

declare str_nat.simps [simp del]

text \<open>
  \<^verbatim>\<open>int(s)\<close> on a string, base 10: surrounding whitespace is dropped, one sign may lead,
  and the digits may be separated by single underscores. \<open>None\<close> is ValueError.
  (Python 3.11 and later also raise on more than 4300 digits; the model has no such limit.)
\<close>

definition is_digit :: "char \<Rightarrow> bool" where
  "is_digit c = (48 \<le> (of_char c :: nat) \<and> (of_char c :: nat) \<le> 57)"

definition digit_val :: "char \<Rightarrow> nat" where
  "digit_val c = of_char c - 48"

fun int_digits :: "nat \<Rightarrow> string \<Rightarrow> nat option" where
  "int_digits acc [] = Some acc"
| "int_digits acc [c] =
     (if is_digit c then Some (acc * 10 + digit_val c) else None)"
| "int_digits acc (c # d # ds) =
     (if c = CHR ''_'' then
        (if is_digit d then int_digits (acc * 10 + digit_val d) ds else None)
      else if is_digit c then int_digits (acc * 10 + digit_val c) (d # ds)
      else None)"

definition py_nat :: "string \<Rightarrow> nat option" where
  "py_nat s =
     (case s of
        [] \<Rightarrow> None
      | c # cs \<Rightarrow> if is_digit c then int_digits (digit_val c) cs else None)"

definition py_int :: "string \<Rightarrow> int option" where
  "py_int s =
     (case strip s of
        [] \<Rightarrow> None
      | c # cs \<Rightarrow>
          if c = CHR ''-'' then map_option (\<lambda>n. - int n) (py_nat cs)
          else if c = CHR ''+'' then map_option int (py_nat cs)
          else map_option int (py_nat (c # cs)))"

section \<open>Title selector\<close>

text \<open>
  The OCR step (\<^verbatim>\<open>crop_and_ocr\<close> on a page of the open document) is outside the
  program's own logic: a parameter, from page number and box to the recognized text.
\<close>

type_synonym ocr = "int \<Rightarrow> bbox \<Rightarrow> string"

definition title_candidate :: "block \<Rightarrow> bool" where
  "title_candidate b =
     ((b_page b = 0 \<or> b_page b = 1)
      \<and> length (b_text b) > 5
      \<and> \<not> list_ex (\<lambda>word. contains (lower (b_text b)) word)
            [''page'', ''draft'', ''confidential''])"

definition title_key :: "block \<Rightarrow> rat \<times> int \<times> rat" where
  "title_key b = (- b_size b, b_page b, by0 (b_bbox b))"

text \<open>
  \<^verbatim>\<open>extract_title\<close>. \<^verbatim>\<open>list.sort\<close> is stable, as \<open>sort_key\<close> is, and compares the
  key tuples lexicographically. The result is the pair (text, OCR text); \<open>None\<close> is the
  IndexError of \<^verbatim>\<open>candidates[0]\<close>.
\<close>

definition extract_title :: "block list \<Rightarrow> ocr \<Rightarrow> (string \<times> string) option" where
  "extract_title blocks recognize =
     (let candidates = filter title_candidate blocks
      in if candidates = [] then Some ([], [])
         else (case sort_key title_key candidates of
                 [] \<Rightarrow> None
               | title_block # _ \<Rightarrow>
                   Some (b_text title_block,
                         recognize (b_page title_block) (b_bbox title_block))))"

section \<open>Heading classifier\<close>

definition ends_with_single_dot :: "string \<Rightarrow> bool" where
  "ends_with_single_dot txt =
     (let t = strip txt
      in if endswith t ''.'' \<and> \<not> endswith t ''...'' then
           (if length t \<ge> 2 then t ! (length t - 2) \<noteq> CHR ''.'' else True)
         else False)"

text \<open>
  \<^verbatim>\<open>heading_level_number\<close>. Below 256 the upper-cased string starts with H iff the
  string starts with h or H; the \<^verbatim>\<open>except\<close> turns the ValueError of \<^verbatim>\<open>int\<close> into
  \<open>None\<close>.
\<close>

definition heading_level_number :: "string \<Rightarrow> int option" where
  "heading_level_number level_str =
     (case level_str of
        [] \<Rightarrow> None
      | c # rest \<Rightarrow>
          if c = CHR ''H'' \<or> c = CHR ''h'' then py_int rest else None)"

text \<open>
  \<^verbatim>\<open>cluster_font_sizes\<close>: the distinct sizes in descending order, then the dict
  comprehension over \<^verbatim>\<open>enumerate(sizes)\<close>, one update per entry.
\<close>

definition distinct_sizes_desc :: "block list \<Rightarrow> rat list" where
  "distinct_sizes_desc candidates = rev (sort (remdups (map b_size candidates)))"

definition cluster_font_sizes :: "block list \<Rightarrow> (rat \<rightharpoonup> string)" where
  "cluster_font_sizes candidates =
     fold (\<lambda>(i, sz) m. m(sz \<mapsto> ''H'' @ str_nat (i + 1)))
       (enumerate 0 (distinct_sizes_desc candidates)) Map.empty"

record heading =
  level :: string
  h_text :: string
  h_page :: int
  ocr_text :: string

definition threshold :: "rat list \<Rightarrow> rat" where
  "threshold font_sizes =
     (if font_sizes = [] then 0
      else sum_list font_sizes / of_nat (length font_sizes) + 3 / 2)"

text \<open>The candidate loop over \<^verbatim>\<open>enumerate(blocks)\<close>; \<open>n\<close> is \<^verbatim>\<open>len(blocks)\<close>.\<close>

fun candidates_loop :: "nat \<Rightarrow> nat \<Rightarrow> string \<Rightarrow> rat \<Rightarrow> block list \<Rightarrow> block list" where
  "candidates_loop idx n title_text thr [] = []"
| "candidates_loop idx n title_text thr (b # bs) =
     (let txt = strip (b_text b);
          rest = candidates_loop (idx + 1) n title_text thr bs
      in if int idx = int n - 1 then rest
         else if txt = [] \<or> txt = title_text then rest
         else if length txt < 3 \<or> length txt > 150 then rest
         else if ends_with_single_dot txt then rest
         else if b_size b < thr then rest
         else b # rest)"

definition heading_candidates :: "block list \<Rightarrow> string \<Rightarrow> block list" where
  "heading_candidates blocks title_text =
     candidates_loop 0 (length blocks) title_text (threshold (map b_size blocks)) blocks"

definition make_heading :: "(rat \<rightharpoonup> string) \<Rightarrow> ocr \<Rightarrow> block \<Rightarrow> heading" where
  "make_heading size_to_level recognize c =
     \<lparr>level = (case size_to_level (b_size c) of Some l \<Rightarrow> l | None \<Rightarrow> ''H3''),
      h_text = b_text c,
      h_page = b_page c,
      ocr_text = recognize (b_page c) (b_bbox c)\<rparr>"

text \<open>
  The sort key of a heading: its page, and the top edge of the first candidate found with
  the heading's text and page. \<^verbatim>\<open>next\<close> on an exhausted generator raises StopIteration,
  which is \<open>None\<close> here.
\<close>

definition heading_sort_key :: "block list \<Rightarrow> heading \<Rightarrow> (int \<times> rat) option" where
  "heading_sort_key candidates h =
     (case find (\<lambda>c. b_text c = h_text h \<and> b_page c = h_page h) candidates of
        None \<Rightarrow> None
      | Some c \<Rightarrow> Some (h_page h, by0 (b_bbox c)))"

text \<open>
  \<^verbatim>\<open>headings.sort(key=...)\<close>: the keys of all elements are computed first, the pairs are
  sorted stably by key, and the keys are dropped.
\<close>

definition sort_headings :: "block list \<Rightarrow> heading list \<Rightarrow> heading list option" where
  "sort_headings candidates headings =
     (case those (map (\<lambda>h. map_option (\<lambda>k. (k, h)) (heading_sort_key candidates h)) headings) of
        None \<Rightarrow> None
      | Some keyed \<Rightarrow> Some (map snd (sort_key fst keyed)))"

text \<open>The hierarchy consistency pass: the last loop of \<^verbatim>\<open>extract_headings\<close>.\<close>

fun hierarchy_loop :: "heading list \<Rightarrow> heading list \<Rightarrow> int option \<Rightarrow> heading list" where
  "hierarchy_loop [] filtered last_level = filtered"
| "hierarchy_loop (h # hs) filtered last_level =
     (case heading_level_number (level h) of
        None \<Rightarrow> hierarchy_loop hs (filtered @ [h]) last_level
      | Some lvl \<Rightarrow>
          (case last_level of
             None \<Rightarrow> hierarchy_loop hs (filtered @ [h]) (Some lvl)
           | Some l \<Rightarrow>
               if lvl \<le> l + 1 then hierarchy_loop hs (filtered @ [h]) (Some lvl)
               else hierarchy_loop hs filtered last_level))"

definition hierarchy_pass :: "heading list \<Rightarrow> heading list" where
  "hierarchy_pass headings = hierarchy_loop headings [] None"

text \<open>
  \<^verbatim>\<open>extract_headings\<close> up to and including the sort: the headings that enter the
  hierarchy pass.
\<close>

definition ordered_headings :: "block list \<Rightarrow> ocr \<Rightarrow> string \<Rightarrow> heading list option" where
  "ordered_headings blocks recognize title_text =
     (if blocks = [] then Some []
      else let candidates = heading_candidates blocks title_text
           in if candidates = [] then Some []
              else let size_to_level = cluster_font_sizes candidates;
                       headings = map (make_heading size_to_level recognize) candidates
                   in sort_headings candidates headings)"

definition extract_headings :: "block list \<Rightarrow> ocr \<Rightarrow> string \<Rightarrow> heading list option" where
  "extract_headings blocks recognize title_text =
     map_option hierarchy_pass (ordered_headings blocks recognize title_text)"

section \<open>Noise filter and the pipeline\<close>

text \<open>
  \<^verbatim>\<open>remove_headers_footers\<close> collects \<^verbatim>\<open>id(b)\<close> in two sets. The blocks of the list
  are distinct objects, so the identity of a block is its position in the list.
\<close>

fun hf_loop :: "nat \<Rightarrow> rat \<Rightarrow> block list \<Rightarrow> nat set \<times> nat set \<Rightarrow> nat set \<times> nat set" where
  "hf_loop i margin [] (headers, footers) = (headers, footers)"
| "hf_loop i margin (b # bs) (headers, footers) =
     (let y0 = by0 (b_bbox b);
          y1 = by1 (b_bbox b);
          height = b_page_height b;
          top_margin = height * margin;
          bottom_margin = height * (1 - margin)
      in if y1 \<le> top_margin then hf_loop (i + 1) margin bs (insert i headers, footers)
         else if y0 \<ge> bottom_margin then hf_loop (i + 1) margin bs (headers, insert i footers)
         else hf_loop (i + 1) margin bs (headers, footers))"

definition remove_headers_footers :: "block list \<Rightarrow> rat \<Rightarrow> nat set \<times> nat set" where
  "remove_headers_footers blocks margin = hf_loop 0 margin blocks ({}, {})"

text \<open>
  \<^verbatim>\<open>main\<close> from the result of \<^verbatim>\<open>parse_pdf\<close> on: the title text and its OCR text, the
  filtered blocks and the headings. The margin is the literal 0.1.
\<close>

definition filtered_blocks :: "block list \<Rightarrow> tables \<Rightarrow> block list" where
  "filtered_blocks blocks tbl =
     (let (header_blocks, footer_blocks) = remove_headers_footers blocks (1 / 10);
          combined_blocks = header_blocks \<union> footer_blocks
      in map snd (filter (\<lambda>(i, b). i \<notin> combined_blocks
                              \<and> \<not> block_in_tables (b_page b) (b_bbox b) tbl)
                    (enumerate 0 blocks)))"

definition main ::
  "block list \<Rightarrow> tables \<Rightarrow> ocr \<Rightarrow> (string \<times> string \<times> block list \<times> heading list) option" where
  "main blocks tbl recognize =
     (case extract_title blocks recognize of
        None \<Rightarrow> None
      | Some (title_text, title_ocr) \<Rightarrow>
          (let filtered = filtered_blocks blocks tbl
           in case extract_headings filtered recognize title_text of
                None \<Rightarrow> None
              | Some headings \<Rightarrow> Some (title_text, title_ocr, filtered, headings)))"

section \<open>Run merger\<close>

text \<open>A span of a line, as the page extractor delivers it, and the accumulator of the loop.\<close>

record span =
  s_text :: string
  s_font :: string
  s_size :: rat
  s_flags :: int
  s_bbox :: bbox

record current =
  c_text :: string
  c_font :: string
  c_size :: rat
  c_flags :: int
  c_bboxes :: "bbox list"

definition flush :: "current \<Rightarrow> bbox \<Rightarrow> int \<Rightarrow> rat \<Rightarrow> rat \<Rightarrow> block" where
  "flush cur merged_bbox page_num height width =
     \<lparr>b_text = c_text cur, b_font = c_font cur, b_size = c_size cur, b_flags = c_flags cur,
      b_bbox = merged_bbox, b_page = page_num, b_page_height = height, b_page_width = width\<rparr>"

definition start :: "string \<Rightarrow> span \<Rightarrow> current" where
  "start txt sp =
     \<lparr>c_text = txt, c_font = s_font sp, c_size = s_size sp, c_flags = s_flags sp,
      c_bboxes = [s_bbox sp]\<rparr>"

text \<open>
  The loop of \<^verbatim>\<open>parse_pdf\<close> over the spans of one line, with the flush after it;
  \<open>page_blocks\<close> receives the merged spans.
\<close>

fun span_loop ::
  "int \<Rightarrow> rat \<Rightarrow> rat \<Rightarrow> span list \<Rightarrow> current option \<Rightarrow> block list \<Rightarrow> block list option" where
  "span_loop page_num height width [] cur page_blocks =
     (case cur of
        None \<Rightarrow> Some page_blocks
      | Some c \<Rightarrow>
          (case merge_bboxes (c_bboxes c) of
             None \<Rightarrow> None
           | Some bb \<Rightarrow> Some (page_blocks @ [flush c bb page_num height width])))"
| "span_loop page_num height width (sp # spans) cur page_blocks =
     (let txt = strip (s_text sp)
      in if txt = [] then span_loop page_num height width spans cur page_blocks
         else (case cur of
                 None \<Rightarrow> span_loop page_num height width spans (Some (start txt sp)) page_blocks
               | Some c \<Rightarrow>
                   if s_font sp = c_font c \<and> s_size sp = c_size c \<and> s_flags sp = c_flags c
                   then span_loop page_num height width spans
                          (Some (c\<lparr>c_text := c_text c @ '' '' @ txt,
                                   c_bboxes := c_bboxes c @ [s_bbox sp]\<rparr>)) page_blocks
                   else (case merge_bboxes (c_bboxes c) of
                           None \<Rightarrow> None
                         | Some bb \<Rightarrow>
                             span_loop page_num height width spans (Some (start txt sp))
                               (page_blocks @ [flush c bb page_num height width]))))"

definition merge_line :: "int \<Rightarrow> rat \<Rightarrow> rat \<Rightarrow> span list \<Rightarrow> block list option" where
  "merge_line page_num height width spans = span_loop page_num height width spans None []"

text \<open>
  For the statement of the pass: the numeric level of the last heading of a list that has
  one, the acceptance test written on the headings kept so far, and the value of
  \<^verbatim>\<open>last_level\<close> when the loop ends.
\<close>

fun last_numeric :: "heading list \<Rightarrow> int option" where
  "last_numeric [] = None"
| "last_numeric (h # hs) =
     (case last_numeric hs of
        Some l \<Rightarrow> Some l
      | None \<Rightarrow> heading_level_number (level h))"






text \<open>
  For the statement of the run merger: the spans that survive the blank test, the maximal
  groups of neighbouring spans of one style (each group as its first span and the spans
  after it), the space-joined text, the coordinate-wise envelope of a list of boxes, the
  block a group merges into, and one step of accumulation.
\<close>

definition nonblank :: "span \<Rightarrow> bool" where
  "nonblank sp = (strip (s_text sp) \<noteq> [])"

definition span_style :: "span \<Rightarrow> string \<times> rat \<times> int" where
  "span_style sp = (s_font sp, s_size sp, s_flags sp)"

function style_groups :: "span list \<Rightarrow> (span \<times> span list) list" where
  "style_groups [] = []"
| "style_groups (sp # sps) =
     (sp, takeWhile (\<lambda>x. span_style x = span_style sp) sps)
     # style_groups (dropWhile (\<lambda>x. span_style x = span_style sp) sps)"
  by pat_completeness auto
termination
  by (relation "measure length") (auto simp: length_dropWhile_le less_Suc_eq_le)

fun join_space :: "string list \<Rightarrow> string" where
  "join_space [] = []"
| "join_space [t] = t"
| "join_space (t # u # us) = t @ '' '' @ join_space (u # us)"

definition envelope :: "bbox list \<Rightarrow> bbox" where
  "envelope bs = (Min (bx0 ` set bs), Min (by0 ` set bs), Max (bx1 ` set bs), Max (by1 ` set bs))"

definition merged_span :: "int \<Rightarrow> rat \<Rightarrow> rat \<Rightarrow> span \<times> span list \<Rightarrow> block" where
  "merged_span page_num height width g =
     \<lparr>b_text = join_space (map (\<lambda>sp. strip (s_text sp)) (fst g # snd g)),
      b_font = s_font (fst g), b_size = s_size (fst g), b_flags = s_flags (fst g),
      b_bbox = envelope (map s_bbox (fst g # snd g)),
      b_page = page_num, b_page_height = height, b_page_width = width\<rparr>"

definition absorb :: "span \<Rightarrow> current \<Rightarrow> current" where
  "absorb sp c = c\<lparr>c_text := c_text c @ '' '' @ strip (s_text sp),
                    c_bboxes := c_bboxes c @ [s_bbox sp]\<rparr>"

fun group_breaks :: "(span \<times> span list) list \<Rightarrow> bool" where
  "group_breaks (g1 # g2 # gs) =
     (span_style (fst g2) \<noteq> span_style (fst g1) \<and> group_breaks (g2 # gs))"
| "group_breaks _ = True"

section \<open>Table filter\<close>

lemma bbox_in_any_iff: "bbox_in_any bb bs \<longleftrightarrow> (\<exists>t \<in> set bs. bbox_intersect bb t)"
  by (induction bs) auto

text \<open>
  C8. Two boxes intersect unless one lies strictly outside the other along the x-axis or
  the y-axis, so touching edges count: (0,0,10,10) and (10,0,20,10) intersect. The table
  filter excludes a block iff its box intersects one of the table boxes registered for
  its page.
\<close>

theorem table_filter_intersects:
  "(bbox_intersect (ax0, ay0, ax1, ay1) (cx0, cy0, cx1, cy1)
      \<longleftrightarrow> cx0 \<le> ax1 \<and> ax0 \<le> cx1 \<and> cy0 \<le> ay1 \<and> ay0 \<le> cy1)
   \<and> bbox_intersect (0, 0, 10, 10) (10, 0, 20, 10)
   \<and> (block_in_tables p bb tbl
      \<longleftrightarrow> (\<exists>bs. tbl p = Some bs \<and> (\<exists>t \<in> set bs. bbox_intersect bb t)))"
  by (auto simp: block_in_tables_def bbox_in_any_iff split: option.splits)

theorem table_filter_intersects_witness:
  "block_in_tables 0 (0, 0, 10, 10) [0 \<mapsto> [(30, 30, 40, 40), (10, 0, 20, 10)]]
   \<and> \<not> block_in_tables 1 (0, 0, 10, 10) [0 \<mapsto> [(30, 30, 40, 40), (10, 0, 20, 10)]]"
  using table_filter_intersects [of 0 0 10 10 10 0 20 10 0 "(0, 0, 10, 10)"
      "[0 \<mapsto> [(30, 30, 40, 40), (10, 0, 20, 10)]]"]
    table_filter_intersects [of 0 0 10 10 10 0 20 10 1 "(0, 0, 10, 10)"
      "[0 \<mapsto> [(30, 30, 40, 40), (10, 0, 20, 10)]]"]
  by simp

section \<open>The block merger is idempotent\<close>

lemma same_style_refl: "same_style a a"
  by (simp add: same_style_def)

lemma same_style_upd:
  "same_style x (c\<lparr>b_text := t, b_bbox := bb\<rparr>) = same_style x c"
  by (simp add: same_style_def)

lemma same_style_trans: "same_style a b \<Longrightarrow> same_style b c \<Longrightarrow> same_style a c"
  by (simp add: same_style_def)

lemma same_style_sym: "same_style a b \<Longrightarrow> same_style b a"
  by (simp add: same_style_def)

text \<open>
  What the loop returns: the blocks flushed so far, then a non-empty list that starts in
  the style of \<open>cur\<close> and changes style at every step.
\<close>

lemma merge_loop_shape:
  "\<exists>ys. merge_loop cur merged rest = Some (merged @ ys) \<and> ys \<noteq> []
        \<and> same_style (hd ys) cur \<and> style_breaks ys"
proof (induction rest arbitrary: cur merged)
  case Nil
  show ?case by (simp add: same_style_refl)
next
  case (Cons blk rest)
  show ?case
  proof (cases "same_style blk cur")
    case True
    let ?c = "cur\<lparr>b_text := b_text cur @ '' '' @ b_text blk,
                  b_bbox := (min (bx0 (b_bbox blk)) (bx0 (b_bbox cur)),
                             min (by0 (b_bbox blk)) (by0 (b_bbox cur)),
                             max (bx1 (b_bbox blk)) (bx1 (b_bbox cur)),
                             max (by1 (b_bbox blk)) (by1 (b_bbox cur)))\<rparr>"
    from Cons.IH [of ?c merged] obtain ys where
      ys: "merge_loop ?c merged rest = Some (merged @ ys)" "ys \<noteq> []"
          "same_style (hd ys) ?c" "style_breaks ys" by blast
    from ys(3) have "same_style (hd ys) cur" by (simp add: same_style_upd)
    with ys True show ?thesis by auto
  next
    case False
    from Cons.IH [of blk "merged @ [cur]"] obtain ys where
      ys: "merge_loop blk (merged @ [cur]) rest = Some ((merged @ [cur]) @ ys)" "ys \<noteq> []"
          "same_style (hd ys) blk" "style_breaks ys" by blast
    from ys(2) obtain y ys' where yy: "ys = y # ys'" by (cases ys) auto
    have "\<not> same_style y cur"
    proof
      assume "same_style y cur"
      with ys(3) yy have "same_style blk cur"
        by (auto intro: same_style_trans same_style_sym)
      with False show False ..
    qed
    with ys yy False show ?thesis
      by (auto simp: same_style_refl)
  qed
qed

lemma merge_loop_fixed:
  "style_breaks (c # ys) \<Longrightarrow> merge_loop c merged ys = Some (merged @ c # ys)"
  by (induction ys arbitrary: c merged) auto

text \<open>
  C10. \<^verbatim>\<open>merge_consecutive_blocks\<close> is idempotent: on every block sequence it returns a
  list (it never raises), no two neighbours of that list share page, font, size and
  flags, and merging that list again returns it unchanged.
\<close>

theorem merge_consecutive_blocks_idempotent:
  "\<exists>ys. merge_consecutive_blocks blocks = Some ys \<and> style_breaks ys
        \<and> merge_consecutive_blocks ys = Some ys"
proof (cases blocks)
  case Nil
  then show ?thesis by (simp add: merge_consecutive_blocks_def)
next
  case (Cons b rest)
  from merge_loop_shape [of b "[]" rest] obtain ys where
    ys: "merge_loop b [] rest = Some ys" "ys \<noteq> []" "style_breaks ys" by auto
  from ys(2) obtain y ys' where yy: "ys = y # ys'" by (cases ys) auto
  with ys(3) have "merge_loop y [] ys' = Some ys"
    using merge_loop_fixed [of y ys' "[]"] by simp
  with ys yy Cons show ?thesis by (simp add: merge_consecutive_blocks_def)
qed

theorem merge_consecutive_blocks_idempotent_witness:
  "\<exists>ys. merge_consecutive_blocks
          [\<lparr>b_text = ''Annual'', b_font = ''Helvetica'', b_size = 12, b_flags = 0,
            b_bbox = (72, 100, 200, 112), b_page = 0, b_page_height = 792, b_page_width = 612\<rparr>,
           \<lparr>b_text = ''report'', b_font = ''Helvetica'', b_size = 12, b_flags = 0,
            b_bbox = (72, 114, 180, 126), b_page = 0, b_page_height = 792, b_page_width = 612\<rparr>,
           \<lparr>b_text = ''Notes'', b_font = ''Helvetica'', b_size = 10, b_flags = 0,
            b_bbox = (72, 130, 150, 140), b_page = 0, b_page_height = 792, b_page_width = 612\<rparr>]
        = Some ys
      \<and> length ys = 2 \<and> b_text (hd ys) = ''Annual report''
      \<and> b_bbox (hd ys) = (72, 100, 200, 126)
      \<and> merge_consecutive_blocks ys = Some ys"
  using merge_consecutive_blocks_idempotent
    [of "[\<lparr>b_text = ''Annual'', b_font = ''Helvetica'', b_size = 12, b_flags = 0,
            b_bbox = (72, 100, 200, 112), b_page = 0, b_page_height = 792, b_page_width = 612\<rparr>,
           \<lparr>b_text = ''report'', b_font = ''Helvetica'', b_size = 12, b_flags = 0,
            b_bbox = (72, 114, 180, 126), b_page = 0, b_page_height = 792, b_page_width = 612\<rparr>,
           \<lparr>b_text = ''Notes'', b_font = ''Helvetica'', b_size = 10, b_flags = 0,
            b_bbox = (72, 130, 150, 140), b_page = 0, b_page_height = 792, b_page_width = 612\<rparr>]"]
  by (simp add: merge_consecutive_blocks_def same_style_def bx0_def by0_def bx1_def by1_def)

section \<open>The hierarchy consistency pass\<close>


lemma last_numeric_append:
  "last_numeric (xs @ ys) =
     (case last_numeric ys of Some l \<Rightarrow> Some l | None \<Rightarrow> last_numeric xs)"
  by (induction xs) (auto split: option.splits)







section \<open>The candidate filter\<close>










section \<open>Level clustering\<close>

lemma fold_update_notin:
  "x \<notin> set xs \<Longrightarrow>
   fold (\<lambda>(i, sz) m. m(sz \<mapsto> f i)) (enumerate k xs) mp x = mp x"
  by (induction xs arbitrary: k mp) auto

lemma fold_update_nth:
  "distinct xs \<Longrightarrow> i < length xs \<Longrightarrow>
   fold (\<lambda>(i, sz) m. m(sz \<mapsto> f i)) (enumerate k xs) mp (xs ! i) = Some (f (k + i))"
proof (induction xs arbitrary: k mp i)
  case Nil
  then show ?case by simp
next
  case (Cons x xs)
  show ?case
  proof (cases i)
    case 0
    from Cons.prems have nin: "x \<notin> set xs" by simp
    have "fold (\<lambda>(i, sz) m. m(sz \<mapsto> f i)) (enumerate k (x # xs)) mp ((x # xs) ! 0)
          = fold (\<lambda>(i, sz) m. m(sz \<mapsto> f i)) (enumerate (Suc k) xs) (mp(x \<mapsto> f k)) x"
      by simp
    also have "\<dots> = (mp(x \<mapsto> f k)) x"
      by (rule fold_update_notin [OF nin])
    also have "\<dots> = Some (f k)" by simp
    finally show ?thesis unfolding 0 by (simp only: add_0_right)
  next
    case (Suc j)
    with Cons.prems Cons.IH [of j "Suc k"] show ?thesis by simp
  qed
qed

lemma desc_sizes: "sorted_wrt (\<lambda>a b. b < a) (distinct_sizes_desc cs)"
  by (simp add: distinct_sizes_desc_def sorted_wrt_rev strict_sorted_iff)

lemma set_sizes: "set (distinct_sizes_desc cs) = b_size ` set cs"
  by (simp add: distinct_sizes_desc_def)

lemma distinct_sizes: "distinct (distinct_sizes_desc cs)"
  by (simp add: distinct_sizes_desc_def)

lemma larger_take:
  fixes ds :: "rat list"
  assumes "sorted_wrt (\<lambda>a b. b < a) ds" "i < length ds"
  shows "{s \<in> set ds. ds ! i < s} = set (take i ds)"
proof (rule set_eqI)
  fix s
  show "s \<in> {s \<in> set ds. ds ! i < s} \<longleftrightarrow> s \<in> set (take i ds)"
  proof
    assume "s \<in> {s \<in> set ds. ds ! i < s}"
    then obtain j where j: "j < length ds" "ds ! j = s" "ds ! i < ds ! j"
      by (auto simp: in_set_conv_nth)
    have "j < i"
    proof (rule ccontr)
      assume "\<not> j < i"
      then have "i = j \<or> i < j" by auto
      then show False
      proof
        assume "i = j" with j show False by simp
      next
        assume "i < j"
        with assms(1) j(1) have "ds ! j < ds ! i"
          by (auto simp: sorted_wrt_iff_nth_less)
        with j(3) show False by simp
      qed
    qed
    with j assms show "s \<in> set (take i ds)"
      by (auto simp: in_set_conv_nth intro!: exI [of _ j])
  next
    assume "s \<in> set (take i ds)"
    then obtain j where j: "j < i" "ds ! j = s"
      using assms by (auto simp: in_set_conv_nth)
    with assms have "ds ! i < ds ! j" by (auto simp: sorted_wrt_iff_nth_less)
    with j assms show "s \<in> {s \<in> set ds. ds ! i < s}" by auto
  qed
qed

lemma rank_card:
  fixes ds :: "rat list"
  assumes "sorted_wrt (\<lambda>a b. b < a) ds" "distinct ds" "i < length ds"
  shows "card {s \<in> set ds. ds ! i < s} = i"
proof -
  have "card (set (take i ds)) = length (take i ds)"
    using assms by (simp add: distinct_card)
  with assms show ?thesis by (simp add: larger_take)
qed

text \<open>
  C3. The level of a candidate is its rank among the distinct candidate sizes: H followed
  by one plus the number of distinct candidate sizes larger than its own. The distinct
  sizes are taken in strictly descending order and the size at position \<open>i\<close> (from 0)
  maps to H\<open>i+1\<close>. The keys of the map are exactly the candidate sizes, so the lookup of
  a candidate's size always succeeds and the fallback is not used.
\<close>

theorem cluster_font_sizes_rank:
  "c \<in> set candidates \<Longrightarrow>
     cluster_font_sizes candidates (b_size c) =
       Some (''H'' @ str_nat (card {s \<in> b_size ` set candidates. b_size c < s} + 1))
     \<and> level (make_heading (cluster_font_sizes candidates) recognize c) =
       ''H'' @ str_nat (card {s \<in> b_size ` set candidates. b_size c < s} + 1)
     \<and> dom (cluster_font_sizes candidates) = b_size ` set candidates
     \<and> sorted_wrt (\<lambda>a b. b < a) (distinct_sizes_desc candidates)
     \<and> set (distinct_sizes_desc candidates) = b_size ` set candidates
     \<and> (\<forall>i < length (distinct_sizes_desc candidates).
          cluster_font_sizes candidates (distinct_sizes_desc candidates ! i) =
            Some (''H'' @ str_nat (i + 1)))"
proof -
  assume c: "c \<in> set candidates"
  let ?ds = "distinct_sizes_desc candidates"
  have nth: "cluster_font_sizes candidates (?ds ! j) = Some (''H'' @ str_nat (j + 1))"
    if "j < length ?ds" for j
    unfolding cluster_font_sizes_def
    using fold_update_nth [where f = "\<lambda>i. ''H'' @ str_nat (i + 1)" and k = 0 and mp = Map.empty,
        OF distinct_sizes that]
    by simp
  from c have "b_size c \<in> set ?ds" by (simp add: set_sizes)
  then obtain i where i: "i < length ?ds" "?ds ! i = b_size c"
    by (auto simp: in_set_conv_nth)
  have "card {s \<in> set ?ds. ?ds ! i < s} = i"
    by (rule rank_card [OF desc_sizes distinct_sizes i(1)])
  with i have rank: "card {s \<in> b_size ` set candidates. b_size c < s} = i"
    by (simp add: set_sizes)
  from nth [OF i(1)] i rank have 1: "cluster_font_sizes candidates (b_size c) =
           Some (''H'' @ str_nat (card {s \<in> b_size ` set candidates. b_size c < s} + 1))"
    by simp
  have 3: "dom (cluster_font_sizes candidates) = b_size ` set candidates"
  proof (rule set_eqI)
    fix x
    show "x \<in> dom (cluster_font_sizes candidates) \<longleftrightarrow> x \<in> b_size ` set candidates"
    proof (cases "x \<in> set ?ds")
      case True
      then obtain j where j: "j < length ?ds" "?ds ! j = x"
        by (auto simp: in_set_conv_nth)
      from nth [OF j(1)] j True show ?thesis by (auto simp: set_sizes)
    next
      case False
      then have "cluster_font_sizes candidates x = None"
        unfolding cluster_font_sizes_def by (simp add: fold_update_notin)
      with False show ?thesis by (auto simp: set_sizes)
    qed
  qed
  from 1 3 nth show ?thesis by (simp add: make_heading_def desc_sizes set_sizes)
qed

theorem cluster_font_sizes_rank_witness:
  "cluster_font_sizes
     [\<lparr>b_text = ''Scope'', b_font = ''Times'', b_size = 20, b_flags = 16,
       b_bbox = (72, 100, 300, 130), b_page = 0, b_page_height = 792, b_page_width = 612\<rparr>,
      \<lparr>b_text = ''Overview'', b_font = ''Times'', b_size = 24, b_flags = 16,
       b_bbox = (72, 200, 300, 220), b_page = 0, b_page_height = 792, b_page_width = 612\<rparr>,
      \<lparr>b_text = ''Method'', b_font = ''Arial'', b_size = 20, b_flags = 0,
       b_bbox = (72, 240, 300, 250), b_page = 1, b_page_height = 792, b_page_width = 612\<rparr>]
     20 = Some ''H2''"
proof -
  let ?c = "\<lparr>b_text = ''Method'', b_font = ''Arial'', b_size = 20, b_flags = 0,
       b_bbox = (72, 240, 300, 250), b_page = 1, b_page_height = 792, b_page_width = 612\<rparr>"
  let ?cs = "[\<lparr>b_text = ''Scope'', b_font = ''Times'', b_size = 20, b_flags = 16,
       b_bbox = (72, 100, 300, 130), b_page = 0, b_page_height = 792, b_page_width = 612\<rparr>,
      \<lparr>b_text = ''Overview'', b_font = ''Times'', b_size = 24, b_flags = 16,
       b_bbox = (72, 200, 300, 220), b_page = 0, b_page_height = 792, b_page_width = 612\<rparr>,
      ?c]"
  have mem: "?c \<in> set ?cs" by simp
  have larger: "{s \<in> b_size ` set ?cs. b_size ?c < s} = {24}" by auto
  have "cluster_font_sizes ?cs (b_size ?c) =
          Some (''H'' @ str_nat (card {s \<in> b_size ` set ?cs. b_size ?c < s} + 1))"
    using cluster_font_sizes_rank [OF mem] by (rule conjunct1)
  then have "cluster_font_sizes ?cs (b_size ?c) = Some (''H'' @ str_nat (card {24 :: rat} + 1))"
    by (simp only: larger)
  then show ?thesis by (simp add: str_nat.simps char_of_def bit_iff_odd)
qed

section \<open>The title selector\<close>

lemma take_eq_prefix: "take (length w) l = w \<longleftrightarrow> prefix w l"
  by (metis append_eq_conv_conj prefix_def)

lemma contains_sublist: "contains t w \<longleftrightarrow> sublist w t"
  by (induction t) (auto simp: sublist_Cons_right take_eq_prefix simp del: take_Suc_Cons)

lemma find_filter_hd: "filter Q xs = t # ts \<Longrightarrow> find Q xs = Some t"
  by (induction xs) (auto split: if_splits)

lemma sort_key_head_first:
  fixes f :: "'a \<Rightarrow> 'k::linorder"
  assumes "sort_key f xs = t # rest"
  shows "find (\<lambda>c. \<forall>d \<in> set xs. f c \<le> f d) xs = Some t"
proof -
  have srt: "sorted (map f (t # rest))"
    using assms sorted_sort_key [of f xs] by simp
  have sets: "set (t # rest) = set xs"
    using assms set_sort [of f xs] by simp
  have min: "\<forall>d \<in> set xs. f t \<le> f d"
    using srt sets by auto
  have "t \<in> set xs" using sets by auto
  have pq: "\<forall>c \<in> set xs. (\<forall>d \<in> set xs. f c \<le> f d) = (f c = f t)"
    using min \<open>t \<in> set xs\<close> by (auto intro: antisym)
  have "filter (\<lambda>y. f y = f t) xs = filter (\<lambda>y. f y = f t) (sort_key f xs)"
    by (simp add: sort_key_stable)
  also have "\<dots> = t # filter (\<lambda>y. f y = f t) rest"
    using assms by simp
  finally have "find (\<lambda>y. f y = f t) xs = Some t" by (rule find_filter_hd)
  moreover have "find (\<lambda>c. \<forall>d \<in> set xs. f c \<le> f d) xs = find (\<lambda>y. f y = f t) xs"
    using pq by (intro find_cong) auto
  ultimately show ?thesis by simp
qed

lemma extract_title_nonempty:
  assumes "filter title_candidate blocks \<noteq> []"
  shows "\<exists>t. find (\<lambda>c. \<forall>d \<in> set (filter title_candidate blocks). title_key c \<le> title_key d)
               (filter title_candidate blocks) = Some t
            \<and> extract_title blocks recognize =
                Some (b_text t, recognize (b_page t) (b_bbox t))"
proof -
  let ?cs = "filter title_candidate blocks"
  have "length (sort_key title_key ?cs) = length ?cs" by simp
  with assms obtain t rest where s: "sort_key title_key ?cs = t # rest"
    by (cases "sort_key title_key ?cs") auto
  from sort_key_head_first [OF s] s assms show ?thesis
    by (simp add: extract_title_def)
qed

lemma title_key_less:
  "title_key c < title_key d \<longleftrightarrow>
     b_size d < b_size c
     \<or> (b_size c = b_size d
        \<and> (b_page c < b_page d \<or> (b_page c = b_page d \<and> by0 (b_bbox c) < by0 (b_bbox d))))"
  by (auto simp: title_key_def less_prod_def)

lemma title_two:
  assumes "title_candidate x" "title_candidate y" "b_size y < b_size x"
  shows "extract_title [x, y] recognize = Some (b_text x, recognize (b_page x) (b_bbox x))"
    and "extract_title [y, x] recognize = Some (b_text x, recognize (b_page x) (b_bbox x))"
proof -
  from assms(3) have "title_key x < title_key y" by (simp add: title_key_less)
  then have "title_key x \<le> title_key y" "\<not> title_key y \<le> title_key x" by auto
  with assms show
    "extract_title [x, y] recognize = Some (b_text x, recognize (b_page x) (b_bbox x))"
    "extract_title [y, x] recognize = Some (b_text x, recognize (b_page x) (b_bbox x))"
    by (simp_all add: extract_title_def)
qed

text \<open>
  C4. A block is a title candidate iff it is on page 0 or 1, its text has more than 5
  characters and its lower-cased text contains none of "page", "draft", "confidential".
  Without a candidate the title is empty. Otherwise the title is the text of the first
  candidate, in sequence order, whose key is least among all candidates; keys compare by
  larger size first, then smaller page, then smaller top edge. A candidate of size 24
  beats one of size 18 whatever their pages and their order.
\<close>

theorem extract_title_rule:
  "(title_candidate b \<longleftrightarrow>
      (b_page b = 0 \<or> b_page b = 1) \<and> 5 < length (b_text b)
      \<and> \<not> sublist ''page'' (lower (b_text b))
      \<and> \<not> sublist ''draft'' (lower (b_text b))
      \<and> \<not> sublist ''confidential'' (lower (b_text b)))
   \<and> (filter title_candidate blocks = [] \<longrightarrow> extract_title blocks recognize = Some ([], []))
   \<and> (filter title_candidate blocks \<noteq> [] \<longrightarrow>
        (\<exists>t. find (\<lambda>c. \<forall>d \<in> set (filter title_candidate blocks). title_key c \<le> title_key d)
                (filter title_candidate blocks) = Some t
            \<and> extract_title blocks recognize =
                Some (b_text t, recognize (b_page t) (b_bbox t))))
   \<and> (title_key c < title_key d \<longleftrightarrow>
        b_size d < b_size c
        \<or> (b_size c = b_size d
           \<and> (b_page c < b_page d \<or> (b_page c = b_page d \<and> by0 (b_bbox c) < by0 (b_bbox d)))))
   \<and> (title_candidate x \<and> title_candidate y \<and> b_size x = 24 \<and> b_size y = 18 \<longrightarrow>
        extract_title [x, y] recognize = Some (b_text x, recognize (b_page x) (b_bbox x))
        \<and> extract_title [y, x] recognize = Some (b_text x, recognize (b_page x) (b_bbox x)))"
proof -
  have 1: "title_candidate b \<longleftrightarrow>
      (b_page b = 0 \<or> b_page b = 1) \<and> 5 < length (b_text b)
      \<and> \<not> sublist ''page'' (lower (b_text b))
      \<and> \<not> sublist ''draft'' (lower (b_text b))
      \<and> \<not> sublist ''confidential'' (lower (b_text b))"
    by (simp add: title_candidate_def contains_sublist)
  have 2: "filter title_candidate blocks = [] \<longrightarrow> extract_title blocks recognize = Some ([], [])"
    by (simp add: extract_title_def)
  have 5: "title_candidate x \<and> title_candidate y \<and> b_size x = 24 \<and> b_size y = 18 \<longrightarrow>
        extract_title [x, y] recognize = Some (b_text x, recognize (b_page x) (b_bbox x))
        \<and> extract_title [y, x] recognize = Some (b_text x, recognize (b_page x) (b_bbox x))"
    using title_two [of x y recognize] by simp
  from 1 2 5 extract_title_nonempty [of blocks recognize] title_key_less [of c d]
  show ?thesis by blast
qed


theorem extract_title_rule_witness:
  "title_candidate
     \<lparr>b_text = ''Report Title'', b_font = ''Times'', b_size = 24, b_flags = 16,
      b_bbox = (72, 100, 300, 130), b_page = 1, b_page_height = 792, b_page_width = 612\<rparr>
   \<and> title_candidate
     \<lparr>b_text = ''A Subtitle'', b_font = ''Times'', b_size = 18, b_flags = 0,
      b_bbox = (72, 50, 300, 70), b_page = 0, b_page_height = 792, b_page_width = 612\<rparr>
   \<and> \<not> title_candidate
     \<lparr>b_text = ''DRAFT copy'', b_font = ''Times'', b_size = 30, b_flags = 0,
      b_bbox = (72, 20, 300, 40), b_page = 0, b_page_height = 792, b_page_width = 612\<rparr>
   \<and> extract_title
     [\<lparr>b_text = ''A Subtitle'', b_font = ''Times'', b_size = 18, b_flags = 0,
       b_bbox = (72, 50, 300, 70), b_page = 0, b_page_height = 792, b_page_width = 612\<rparr>,
      \<lparr>b_text = ''Report Title'', b_font = ''Times'', b_size = 24, b_flags = 16,
       b_bbox = (72, 100, 300, 130), b_page = 1, b_page_height = 792, b_page_width = 612\<rparr>]
     (\<lambda>p bb. ''Report Tit1e'') = Some (''Report Title'', ''Report Tit1e'')"
  using extract_title_rule
    [where x = "\<lparr>b_text = ''Report Title'', b_font = ''Times'', b_size = 24, b_flags = 16,
      b_bbox = (72, 100, 300, 130), b_page = 1, b_page_height = 792, b_page_width = 612\<rparr>"
       and y = "\<lparr>b_text = ''A Subtitle'', b_font = ''Times'', b_size = 18, b_flags = 0,
      b_bbox = (72, 50, 300, 70), b_page = 0, b_page_height = 792, b_page_width = 612\<rparr>"
       and b = "\<lparr>b_text = ''DRAFT copy'', b_font = ''Times'', b_size = 30, b_flags = 0,
      b_bbox = (72, 20, 300, 40), b_page = 0, b_page_height = 792, b_page_width = 612\<rparr>"
       and blocks = "[]" and recognize = "\<lambda>p bb. ''Report Tit1e''"]
  by (simp add: title_candidate_def lower_def char_lower_def char_of_def bit_iff_odd)

section \<open>Headers and footers\<close>







section \<open>The pipeline\<close>

lemma those_map_Some:
  "(\<And>x. x \<in> set xs \<Longrightarrow> f x = Some (g x)) \<Longrightarrow> those (map f xs) = Some (map g xs)"
  by (induction xs) auto

lemma heading_sort_key_found:
  assumes "c \<in> set candidates"
  shows "\<exists>k. heading_sort_key candidates (make_heading stl recognize c) = Some k"
proof -
  have "find (\<lambda>c'. b_text c' = b_text c \<and> b_page c' = b_page c) candidates \<noteq> None"
    using assms by (auto simp: find_None_iff)
  then show ?thesis
    by (auto simp: heading_sort_key_def make_heading_def split: option.splits)
qed

lemma sort_headings_total:
  "\<exists>hs. sort_headings candidates (map (make_heading stl recognize) candidates) = Some hs"
proof -
  let ?key = "\<lambda>h. map_option (\<lambda>k. (k, h)) (heading_sort_key candidates h)"
  let ?g = "\<lambda>h. (the (heading_sort_key candidates h), h)"
  have "those (map ?key (map (make_heading stl recognize) candidates))
        = Some (map ?g (map (make_heading stl recognize) candidates))"
  proof (rule those_map_Some)
    fix h
    assume "h \<in> set (map (make_heading stl recognize) candidates)"
    then obtain c where "c \<in> set candidates" "h = make_heading stl recognize c" by auto
    with heading_sort_key_found [of c candidates stl recognize]
    show "?key h = Some (?g h)" by auto
  qed
  then show ?thesis by (simp add: sort_headings_def)
qed

lemma ordered_headings_total: "\<exists>hs. ordered_headings blocks recognize title_text = Some hs"
  using sort_headings_total by (simp add: ordered_headings_def Let_def)

lemma extract_headings_total: "\<exists>hs. extract_headings blocks recognize title_text = Some hs"
  using ordered_headings_total [of blocks recognize title_text]
  by (auto simp: extract_headings_def)

lemma extract_title_total: "\<exists>t r. extract_title blocks recognize = Some (t, r)"
proof (cases "filter title_candidate blocks = []")
  case True
  then show ?thesis by (simp add: extract_title_def)
next
  case False
  from extract_title_nonempty [OF this] show ?thesis by blast
qed

lemma find_Some_mem: "find P xs = Some x \<Longrightarrow> x \<in> set xs \<and> P x"
  by (induction xs) (auto split: if_splits)

lemma extract_title_least:
  assumes "filter title_candidate blocks \<noteq> []"
    and "extract_title blocks recognize = Some (t, r)"
  shows "\<exists>b \<in> set blocks. title_candidate b \<and> t = b_text b
           \<and> r = recognize (b_page b) (b_bbox b)
           \<and> (\<forall>d \<in> set blocks. title_candidate d \<longrightarrow> title_key b \<le> title_key d)"
proof -
  from extract_title_nonempty [OF assms(1), of recognize] obtain b where
    b: "find (\<lambda>c. \<forall>d \<in> set (filter title_candidate blocks). title_key c \<le> title_key d)
          (filter title_candidate blocks) = Some b"
       "extract_title blocks recognize = Some (b_text b, recognize (b_page b) (b_bbox b))"
    by blast
  from find_Some_mem [OF b(1)] have "b \<in> set (filter title_candidate blocks)"
    "\<forall>d \<in> set (filter title_candidate blocks). title_key b \<le> title_key d"
    by blast+
  with b(2) assms(2) show ?thesis by auto
qed

lemmas eval_defs = main_def extract_title_def title_candidate_def lower_def char_lower_def
  char_of_def bit_iff_odd filtered_blocks_def remove_headers_footers_def by0_def by1_def
  block_in_tables_def extract_headings_def ordered_headings_def heading_candidates_def
  threshold_def hierarchy_pass_def title_key_def Let_def strip_def is_space_def


text \<open>
  C5, as the code has it. \<^verbatim>\<open>main\<close> never raises and selects the title from the whole
  block sequence that \<^verbatim>\<open>parse_pdf\<close> returns, before the noise filter runs; the filtered
  sequence is the input of the heading classifier only. So when there is a title
  candidate, the title is the text of a candidate of the unfiltered sequence whose key
  is least among all candidates of that sequence, whether or not the filter removes it.
\<close>

theorem main_title_unfiltered:
  "\<exists>t r hs. main blocks tbl recognize = Some (t, r, filtered_blocks blocks tbl, hs)
     \<and> extract_title blocks recognize = Some (t, r)
     \<and> extract_headings (filtered_blocks blocks tbl) recognize t = Some hs
     \<and> (filter title_candidate blocks \<noteq> [] \<longrightarrow>
          (\<exists>b \<in> set blocks. title_candidate b \<and> t = b_text b
             \<and> (\<forall>d \<in> set blocks. title_candidate d \<longrightarrow> title_key b \<le> title_key d)))"
proof -
  obtain t r where tr: "extract_title blocks recognize = Some (t, r)"
    using extract_title_total by blast
  obtain hs where hs: "extract_headings (filtered_blocks blocks tbl) recognize t = Some hs"
    using extract_headings_total by blast
  have "main blocks tbl recognize = Some (t, r, filtered_blocks blocks tbl, hs)"
    by (simp add: main_def tr hs)
  moreover have "filter title_candidate blocks \<noteq> [] \<longrightarrow>
          (\<exists>b \<in> set blocks. title_candidate b \<and> t = b_text b
             \<and> (\<forall>d \<in> set blocks. title_candidate d \<longrightarrow> title_key b \<le> title_key d))"
    using extract_title_least [OF _ tr] by blast
  ultimately show ?thesis using tr hs by blast
qed


text \<open>
  A block in the header band is removed by the filter and is the title all the same.
\<close>

theorem main_title_filtered_counterexample:
  "\<lparr>b_text = ''Report Title'', b_font = ''Times-Bold'', b_size = 24, b_flags = 16,
     b_bbox = (72, 20, 300, 50), b_page = 0, b_page_height = 792, b_page_width = 612\<rparr>
     \<notin> set (filtered_blocks
        [\<lparr>b_text = ''Report Title'', b_font = ''Times-Bold'', b_size = 24, b_flags = 16,
          b_bbox = (72, 20, 300, 50), b_page = 0, b_page_height = 792, b_page_width = 612\<rparr>,
         \<lparr>b_text = ''Body of the report'', b_font = ''Times'', b_size = 10, b_flags = 0,
          b_bbox = (72, 100, 500, 700), b_page = 0, b_page_height = 792, b_page_width = 612\<rparr>]
        [0 \<mapsto> []])
   \<and> main
        [\<lparr>b_text = ''Report Title'', b_font = ''Times-Bold'', b_size = 24, b_flags = 16,
          b_bbox = (72, 20, 300, 50), b_page = 0, b_page_height = 792, b_page_width = 612\<rparr>,
         \<lparr>b_text = ''Body of the report'', b_font = ''Times'', b_size = 10, b_flags = 0,
          b_bbox = (72, 100, 500, 700), b_page = 0, b_page_height = 792, b_page_width = 612\<rparr>]
        [0 \<mapsto> []] (\<lambda>p bb. [])
      = Some (''Report Title'', [],
         [\<lparr>b_text = ''Body of the report'', b_font = ''Times'', b_size = 10, b_flags = 0,
          b_bbox = (72, 100, 500, 700), b_page = 0, b_page_height = 792, b_page_width = 612\<rparr>],
         [])"
  by (simp add: eval_defs)


theorem main_title_unfiltered_witness:
  "\<exists>r hs. main
        [\<lparr>b_text = ''ACME Corp Annual'', b_font = ''Times'', b_size = 9, b_flags = 0,
          b_bbox = (72, 20, 300, 30), b_page = 0, b_page_height = 792, b_page_width = 612\<rparr>,
         \<lparr>b_text = ''Annual Report 2024'', b_font = ''Times-Bold'', b_size = 24, b_flags = 16,
          b_bbox = (72, 100, 400, 130), b_page = 0, b_page_height = 792, b_page_width = 612\<rparr>,
         \<lparr>b_text = ''Body of the report'', b_font = ''Times'', b_size = 10, b_flags = 0,
          b_bbox = (72, 150, 500, 700), b_page = 0, b_page_height = 792, b_page_width = 612\<rparr>]
        [0 \<mapsto> []] (\<lambda>p bb. [])
      = Some (''Annual Report 2024'', r,
         [\<lparr>b_text = ''Annual Report 2024'', b_font = ''Times-Bold'', b_size = 24, b_flags = 16,
          b_bbox = (72, 100, 400, 130), b_page = 0, b_page_height = 792, b_page_width = 612\<rparr>,
         \<lparr>b_text = ''Body of the report'', b_font = ''Times'', b_size = 10, b_flags = 0,
          b_bbox = (72, 150, 500, 700), b_page = 0, b_page_height = 792, b_page_width = 612\<rparr>],
         hs)"
  using main_title_unfiltered
    [of "[\<lparr>b_text = ''ACME Corp Annual'', b_font = ''Times'', b_size = 9, b_flags = 0,
          b_bbox = (72, 20, 300, 30), b_page = 0, b_page_height = 792, b_page_width = 612\<rparr>,
         \<lparr>b_text = ''Annual Report 2024'', b_font = ''Times-Bold'', b_size = 24, b_flags = 16,
          b_bbox = (72, 100, 400, 130), b_page = 0, b_page_height = 792, b_page_width = 612\<rparr>,
         \<lparr>b_text = ''Body of the report'', b_font = ''Times'', b_size = 10, b_flags = 0,
          b_bbox = (72, 150, 500, 700), b_page = 0, b_page_height = 792, b_page_width = 612\<rparr>]"
        "[0 \<mapsto> []]" "\<lambda>p bb. []"]
  by (simp add: eval_defs)

section \<open>Reading order of the headings\<close>

text \<open>
  C6. The sort key of a heading takes the top edge of the first candidate that has the
  heading's text and page, which need not be the block the heading came from. With the
  text "Example" at y 100 and again at y 500 of page 0 and "Solution" at y 300 between
  them, both "Example" headings get the key (0, 100), and the heading of the block at
  y 500 enters the hierarchy pass before the heading of the block at y 300.
\<close>

theorem ordered_headings_repeated_text:
  "ordered_headings
     [\<lparr>b_text = ''Example'', b_font = ''Helvetica-Bold'', b_size = 20, b_flags = 16,
       b_bbox = (72, 100, 200, 120), b_page = 0, b_page_height = 792, b_page_width = 612\<rparr>,
      \<lparr>b_text = ''Solution'', b_font = ''Helvetica-Oblique'', b_size = 20, b_flags = 2,
       b_bbox = (72, 300, 200, 320), b_page = 0, b_page_height = 792, b_page_width = 612\<rparr>,
      \<lparr>b_text = ''Example'', b_font = ''Helvetica-Bold'', b_size = 22, b_flags = 16,
       b_bbox = (72, 500, 200, 522), b_page = 0, b_page_height = 792, b_page_width = 612\<rparr>,
      \<lparr>b_text = ''Closing remarks follow'', b_font = ''Helvetica'', b_size = 10, b_flags = 0,
       b_bbox = (72, 600, 500, 700), b_page = 0, b_page_height = 792, b_page_width = 612\<rparr>]
     (\<lambda>p bb. if by0 bb = 100 then ''top 100'' else if by0 bb = 300 then ''top 300''
              else ''top 500'')
     ''Report''
   = Some [\<lparr>level = ''H2'', h_text = ''Example'', h_page = 0, ocr_text = ''top 100''\<rparr>,
           \<lparr>level = ''H1'', h_text = ''Example'', h_page = 0, ocr_text = ''top 500''\<rparr>,
           \<lparr>level = ''H2'', h_text = ''Solution'', h_page = 0, ocr_text = ''top 300''\<rparr>]"
  by (simp add: eval_defs strip_def is_space_def ends_with_single_dot_def endswith_def
      cluster_font_sizes_def distinct_sizes_desc_def make_heading_def sort_headings_def
      heading_sort_key_def str_nat.simps Let_def)

section \<open>The run merger on one line\<close>

lemma merge_bboxes_envelope: "bs \<noteq> [] \<Longrightarrow> merge_bboxes bs = Some (envelope bs)"
proof (cases bs)
  case Nil
  assume "bs \<noteq> []"
  with Nil show ?thesis by simp
next
  case (Cons b bs')
  have "fold min (map bx0 bs') (bx0 b) = Min (set (map bx0 (b # bs')))"
       "fold min (map by0 bs') (by0 b) = Min (set (map by0 (b # bs')))"
       "fold max (map bx1 bs') (bx1 b) = Max (set (map bx1 (b # bs')))"
       "fold max (map by1 bs') (by1 b) = Max (set (map by1 (b # bs')))"
    by (simp_all only: list.map Min.set_eq_fold Max.set_eq_fold)
  with Cons show ?thesis by (simp add: envelope_def)
qed

lemma join_space_Cons: "join_space (t # ts) = t @ concat (map (\<lambda>u. '' '' @ u) ts)"
  by (induction ts arbitrary: t) auto

lemma fold_absorb_fields:
  "c_text (fold absorb g c) = c_text c @ concat (map (\<lambda>sp. '' '' @ strip (s_text sp)) g)"
  "c_bboxes (fold absorb g c) = c_bboxes c @ map s_bbox g"
  "c_font (fold absorb g c) = c_font c"
  "c_size (fold absorb g c) = c_size c"
  "c_flags (fold absorb g c) = c_flags c"
  by (induction g arbitrary: c) (auto simp: absorb_def)

lemma flush_start:
  "flush (fold absorb g (start (strip (s_text sp)) sp))
     (envelope (c_bboxes (fold absorb g (start (strip (s_text sp)) sp)))) page_num height width
   = merged_span page_num height width (sp, g)"
  by (simp add: flush_def merged_span_def fold_absorb_fields start_def join_space_Cons
      comp_def map_concat)

lemma span_loop_current:
  "c_bboxes c \<noteq> [] \<Longrightarrow>
   span_loop pn h w spans (Some c) pb =
     Some (pb
       @ [flush (fold absorb (takeWhile (\<lambda>x. span_style x = (c_font c, c_size c, c_flags c))
                                (filter nonblank spans)) c)
            (envelope (c_bboxes (fold absorb
               (takeWhile (\<lambda>x. span_style x = (c_font c, c_size c, c_flags c))
                  (filter nonblank spans)) c))) pn h w]
       @ map (merged_span pn h w)
           (style_groups (dropWhile (\<lambda>x. span_style x = (c_font c, c_size c, c_flags c))
                            (filter nonblank spans))))"
proof (induction spans arbitrary: c pb)
  case Nil
  then show ?case by (simp add: merge_bboxes_envelope)
next
  case (Cons sp spans)
  show ?case
  proof (cases "nonblank sp")
    case False
    with Cons.IH [OF Cons.prems] show ?thesis by (simp add: nonblank_def)
  next
    case nb: True
    show ?thesis
    proof (cases "span_style sp = (c_font c, c_size c, c_flags c)")
      case True
      have ne: "c_bboxes (absorb sp c) \<noteq> []" by (simp add: absorb_def)
      have st: "(c_font (absorb sp c), c_size (absorb sp c), c_flags (absorb sp c))
                = (c_font c, c_size c, c_flags c)" by (simp add: absorb_def)
      from True have eq: "s_font sp = c_font c \<and> s_size sp = c_size c \<and> s_flags sp = c_flags c"
        by (simp add: span_style_def)
      have step: "span_loop pn h w (sp # spans) (Some c) pb
                  = span_loop pn h w spans (Some (absorb sp c)) pb"
        using nb eq by (simp add: nonblank_def absorb_def)
      show ?thesis
        unfolding step Cons.IH [OF ne] st using nb True by simp
    next
      case False
      then have neq: "\<not> (s_font sp = c_font c \<and> s_size sp = c_size c \<and> s_flags sp = c_flags c)"
        by (simp add: span_style_def)
      let ?n = "start (strip (s_text sp)) sp"
      have ne: "c_bboxes ?n \<noteq> []" by (simp add: start_def)
      have st: "(c_font ?n, c_size ?n, c_flags ?n) = span_style sp"
        by (simp add: start_def span_style_def)
      have step: "span_loop pn h w (sp # spans) (Some c) pb
                  = span_loop pn h w spans (Some ?n) (pb @ [flush c (envelope (c_bboxes c)) pn h w])"
        using nb neq Cons.prems by (auto simp: nonblank_def merge_bboxes_envelope Let_def)
      show ?thesis
        unfolding step Cons.IH [OF ne] st using nb False by (simp add: flush_start)
    qed
  qed
qed

lemma span_loop_none:
  "span_loop pn h w spans None pb =
     Some (pb @ map (merged_span pn h w) (style_groups (filter nonblank spans)))"
proof (induction spans arbitrary: pb)
  case Nil
  show ?case by simp
next
  case (Cons sp spans)
  show ?case
  proof (cases "nonblank sp")
    case False
    with Cons.IH show ?thesis by (simp add: nonblank_def)
  next
    case True
    let ?n = "start (strip (s_text sp)) sp"
    have ne: "c_bboxes ?n \<noteq> []" by (simp add: start_def)
    have st: "(c_font ?n, c_size ?n, c_flags ?n) = span_style sp"
      by (simp add: start_def span_style_def)
    have step: "span_loop pn h w (sp # spans) None pb = span_loop pn h w spans (Some ?n) pb"
      using True by (simp add: nonblank_def)
    show ?thesis
      unfolding step span_loop_current [OF ne] st using True by (simp add: flush_start)
  qed
qed

lemma style_groups_concat: "concat (map (\<lambda>g. fst g # snd g) (style_groups xs)) = xs"
  by (induction xs rule: style_groups.induct) simp_all

lemma style_groups_same:
  "g \<in> set (style_groups xs) \<Longrightarrow> x \<in> set (snd g) \<Longrightarrow> span_style x = span_style (fst g)"
  by (induction xs rule: style_groups.induct) (auto dest: set_takeWhileD)

lemma style_groups_head:
  "style_groups xs = g # gs \<Longrightarrow> xs \<noteq> [] \<and> fst g = hd xs"
  by (cases xs) auto

lemma style_groups_breaks: "group_breaks (style_groups xs)"
proof (induction xs rule: style_groups.induct)
  case 1
  show ?case by simp
next
  case (2 sp sps)
  let ?d = "dropWhile (\<lambda>x. span_style x = span_style sp) sps"
  show ?case
  proof (cases "style_groups ?d")
    case Nil
    then show ?thesis by simp
  next
    case (Cons g gs)
    from style_groups_head [OF Cons] have d: "?d \<noteq> []" "fst g = hd ?d" by simp_all
    from d(1) have "span_style (hd ?d) \<noteq> span_style sp" by (rule hd_dropWhile)
    with d Cons "2.IH" show ?thesis by simp
  qed
qed

lemma style_groups_uniform:
  assumes "\<forall>x \<in> set rest. span_style x = span_style sp"
  shows "style_groups (sp # rest) = [(sp, rest)]"
proof -
  from assms have "dropWhile (\<lambda>x. span_style x = span_style sp) rest = []"
    by simp
  moreover from assms have "takeWhile (\<lambda>x. span_style x = span_style sp) rest = rest"
    by (simp add: takeWhile_eq_all_conv)
  ultimately show ?thesis by (simp del: dropWhile_eq_Nil_conv)
qed

text \<open>
  C9, as the code has it. The run-merging pass over one line never raises. It drops the
  spans whose trimmed text is empty, splits the remaining spans into the maximal groups
  of neighbours with equal font, size and flags, and returns one block per group: its
  text is the trimmed texts of the group joined by single spaces, in order, and its box
  is the coordinate-wise min/max envelope of the group's boxes. Hence a non-empty line
  whose spans all share font, size and flags and have non-empty trimmed text gives
  exactly one block, with the space-joined trimmed texts and the envelope of all boxes.
\<close>

theorem merge_line_rule:
  "merge_line pn h w spans =
     Some (map (merged_span pn h w) (style_groups (filter nonblank spans)))
   \<and> concat (map (\<lambda>g. fst g # snd g) (style_groups (filter nonblank spans)))
       = filter nonblank spans
   \<and> (\<forall>g \<in> set (style_groups (filter nonblank spans)).
         \<forall>x \<in> set (snd g). span_style x = span_style (fst g))
   \<and> group_breaks (style_groups (filter nonblank spans))
   \<and> ((\<forall>x \<in> set (sp # rest). nonblank x \<and> span_style x = span_style sp) \<longrightarrow>
        merge_line pn h w (sp # rest) =
          Some [\<lparr>b_text = join_space (map (\<lambda>x. strip (s_text x)) (sp # rest)),
                 b_font = s_font sp, b_size = s_size sp, b_flags = s_flags sp,
                 b_bbox = envelope (map s_bbox (sp # rest)),
                 b_page = pn, b_page_height = h, b_page_width = w\<rparr>])"
proof -
  have 1: "merge_line pn h w xs =
     Some (map (merged_span pn h w) (style_groups (filter nonblank xs)))" for xs
    using span_loop_none [of pn h w xs "[]"] by (simp add: merge_line_def)
  have 5: "merge_line pn h w (sp # rest) =
          Some [\<lparr>b_text = join_space (map (\<lambda>x. strip (s_text x)) (sp # rest)),
                 b_font = s_font sp, b_size = s_size sp, b_flags = s_flags sp,
                 b_bbox = envelope (map s_bbox (sp # rest)),
                 b_page = pn, b_page_height = h, b_page_width = w\<rparr>]"
    if a: "\<forall>x \<in> set (sp # rest). nonblank x \<and> span_style x = span_style sp"
  proof -
    from a have k: "filter nonblank (sp # rest) = sp # rest" by (simp add: filter_id_conv)
    from a have "\<forall>x \<in> set rest. span_style x = span_style sp" by simp
    then have g: "style_groups (sp # rest) = [(sp, rest)]" by (rule style_groups_uniform)
    show ?thesis unfolding 1 k g by (simp add: merged_span_def)
  qed
  from 1 [of spans] 5 style_groups_concat style_groups_same style_groups_breaks
  show ?thesis by blast
qed

text \<open>
  The texts joined are the trimmed ones: "Hello " and "World" give "Hello World", with
  one space, not the originals joined by a space.
\<close>

theorem merge_line_originals_counterexample:
  "merge_line 0 792 612
     [\<lparr>s_text = ''Hello '', s_font = ''Times'', s_size = 12, s_flags = 0,
        s_bbox = (72, 100, 110, 112)\<rparr>,
      \<lparr>s_text = ''World'', s_font = ''Times'', s_size = 12, s_flags = 0,
        s_bbox = (110, 100, 150, 112)\<rparr>]
   = Some [\<lparr>b_text = ''Hello World'', b_font = ''Times'', b_size = 12, b_flags = 0,
            b_bbox = (72, 100, 150, 112), b_page = 0, b_page_height = 792,
            b_page_width = 612\<rparr>]
   \<and> ''Hello World'' \<noteq> join_space [''Hello '', ''World'']"
  by (simp add: merge_line_def strip_def is_space_def start_def flush_def
      bx0_def by0_def bx1_def by1_def)

theorem merge_line_rule_witness:
  "merge_line 1 792 612
     [\<lparr>s_text = ''1. '', s_font = ''Times-Bold'', s_size = 16, s_flags = 16,
        s_bbox = (72, 200, 90, 216)\<rparr>,
      \<lparr>s_text = ''   '', s_font = ''Times'', s_size = 10, s_flags = 0,
        s_bbox = (90, 204, 95, 214)\<rparr>,
      \<lparr>s_text = ''Introduction'', s_font = ''Times-Bold'', s_size = 16, s_flags = 16,
        s_bbox = (95, 199, 200, 217)\<rparr>]
   = Some [\<lparr>b_text = ''1. Introduction'', b_font = ''Times-Bold'', b_size = 16, b_flags = 16,
            b_bbox = (72, 199, 200, 217), b_page = 1, b_page_height = 792,
            b_page_width = 612\<rparr>]
   \<and> merge_line 0 792 612
     [\<lparr>s_text = ''Hello '', s_font = ''Times'', s_size = 12, s_flags = 0,
        s_bbox = (72, 100, 110, 112)\<rparr>,
      \<lparr>s_text = ''World'', s_font = ''Times'', s_size = 12, s_flags = 0,
        s_bbox = (110, 100, 150, 112)\<rparr>]
   = Some [\<lparr>b_text = ''Hello World'', b_font = ''Times'', b_size = 12, b_flags = 0,
            b_bbox = (72, 100, 150, 112), b_page = 0, b_page_height = 792,
            b_page_width = 612\<rparr>]"
  using merge_line_rule
    [of 1 792 612
      "[\<lparr>s_text = ''1. '', s_font = ''Times-Bold'', s_size = 16, s_flags = 16,
        s_bbox = (72, 200, 90, 216)\<rparr>,
      \<lparr>s_text = ''   '', s_font = ''Times'', s_size = 10, s_flags = 0,
        s_bbox = (90, 204, 95, 214)\<rparr>,
      \<lparr>s_text = ''Introduction'', s_font = ''Times-Bold'', s_size = 16, s_flags = 16,
        s_bbox = (95, 199, 200, 217)\<rparr>]"
      "\<lparr>s_text = ''Hello '', s_font = ''Times'', s_size = 12, s_flags = 0,
        s_bbox = (72, 100, 110, 112)\<rparr>"
      "[\<lparr>s_text = ''World'', s_font = ''Times'', s_size = 12, s_flags = 0,
        s_bbox = (110, 100, 150, 112)\<rparr>]"]
    merge_line_rule
    [of 0 792 612 "[]"
      "\<lparr>s_text = ''Hello '', s_font = ''Times'', s_size = 12, s_flags = 0,
        s_bbox = (72, 100, 110, 112)\<rparr>"
      "[\<lparr>s_text = ''World'', s_font = ''Times'', s_size = 12, s_flags = 0,
        s_bbox = (110, 100, 150, 112)\<rparr>]"]
  by (simp add: nonblank_def span_style_def strip_def is_space_def merged_span_def
      envelope_def bx0_def by0_def bx1_def by1_def)

end
